theory Spec2Isabelle
  imports Main "HOL-Library.AList"
begin

section \<open>The fixed-window rate limiter of middleware/rateLimiter.js\<close>

text \<open>
  The class \<open>RateLimiter\<close> keeps, per tracking key, a counter and the start of the
  current window. This theory embeds its methods as functions on an explicit state and
  proves the properties its specification states.

  Conventions of the embedding.
  \<^item> JavaScript numbers that the class handles (limits, millisecond timestamps) are
    integers far below \<open>2^53\<close>; they are modelled as \<open>int\<close>. A counter starts at
    \<open>0\<close> and is only ever incremented; it is a \<open>nat\<close>.
  \<^item> \<open>Date.now()\<close> is an input: every operation that reads the clock takes the value
    read as its last argument \<open>now\<close>. Nothing is assumed about successive readings.
  \<^item> \<open>this.storage\<close> is a JavaScript \<open>Map\<close>: at most one entry per key, iterated in
    insertion order. It is modelled as an association list in that order;
    \<open>Map.prototype.set\<close> overwrites in place or appends, \<open>Map.prototype.delete\<close>
    removes the entry.
  \<^item> An identity is the object \<open>req.user\<close> or \<open>null\<close>/\<open>undefined\<close>; its field
    \<open>type\<close> is a string or is missing, its field \<open>id\<close> is any of the values below.
  \<^item> \<open>this.limits\<close> is the object literal with the three own properties \<open>guest\<close>,
    \<open>free\<close> and \<open>premium\<close>, whose prototype is \<open>Object.prototype\<close>. A lookup
    \<open>this.limits[name]\<close> finds an own property, else a member inherited from
    \<open>Object.prototype\<close> (such as \<open>constructor\<close>), else \<open>undefined\<close>. So a limit is a
    number or one of those members, and the arithmetic on it can give \<open>NaN\<close>.
  \<^item> The timer started by the constructor and the line \<open>cleanup\<close> prints are effects
    outside the store and are not part of the state.
\<close>

subsection \<open>JavaScript values of the identity's id\<close>

datatype jsval = Undefined | Null | Num int | Str string

text \<open>Truthiness, as \<open>&&\<close>, \<open>||\<close> and \<open>if\<close> test it.\<close>

fun truthy :: "jsval \<Rightarrow> bool" where
  "truthy Undefined = False"
| "truthy Null = False"
| "truthy (Num n) = (n \<noteq> 0)"
| "truthy (Str s) = (s \<noteq> [])"

text \<open>Decimal rendering of a number inside a template literal.\<close>

definition digit_char :: "nat \<Rightarrow> char" where
  "digit_char d = ''0123456789'' ! d"

function string_of_nat :: "nat \<Rightarrow> string" where
  "string_of_nat n =
     (if n < 10 then [digit_char n]
      else string_of_nat (n div 10) @ [digit_char (n mod 10)])"
  by pat_completeness auto
termination
  by (relation "measure (\<lambda>n. n)") auto

declare string_of_nat.simps [simp del]

definition string_of_int :: "int \<Rightarrow> string" where
  "string_of_int i =
     (if i < 0 then CHR ''-'' # string_of_nat (nat (- i)) else string_of_nat (nat i))"

fun to_string :: "jsval \<Rightarrow> string" where
  "to_string Undefined = ''undefined''"
| "to_string Null = ''null''"
| "to_string (Num n) = string_of_int n"
| "to_string (Str s) = s"

subsection \<open>Data\<close>

text \<open>The identity \<open>req.user\<close>: \<open>{ type, id }\<close>. A missing \<open>type\<close> is \<open>None\<close>.\<close>

record user =
  user_type :: "string option"
  user_id :: jsval

text \<open>One entry of the store: \<open>{ count, windowStart }\<close>.\<close>

record windowData =
  count :: nat
  windowStart :: int

text \<open>\<open>this.limits\<close>: requests per window for each tier.\<close>

record limits_table =
  guest :: int
  free :: int
  premium :: int

type_synonym storage_map = "(string \<times> windowData) list"

record rate_limiter =
  storage :: storage_map
  limits :: limits_table
  windowSize :: int

text \<open>
  What a limit, and a number computed from it, can be: an integer, \<open>NaN\<close>, or the
  member of \<open>Object.prototype\<close> of the given name (a function; for \<open>__proto__\<close> the
  prototype object itself).
\<close>

datatype limit_value = Number int | NaN | Inherited string

text \<open>Truthiness of such a value: a function or object is truthy, \<open>0\<close> and \<open>NaN\<close> are not.\<close>

fun truthy_value :: "limit_value \<Rightarrow> bool" where
  "truthy_value (Number n) = (n \<noteq> 0)"
| "truthy_value NaN = False"
| "truthy_value (Inherited name) = True"

text \<open>
  The operators the class applies to a limit. A function or object converts to the
  number \<open>NaN\<close>; arithmetic on \<open>NaN\<close> gives \<open>NaN\<close> and every comparison with it is false.
  \<open>js_minus v n\<close> is \<open>v - n\<close>, \<open>js_max0 v\<close> is \<open>Math.max(0, v)\<close>, \<open>js_less n v\<close> is
  \<open>n < v\<close>, for a number \<open>n\<close>.
\<close>

fun js_minus :: "limit_value \<Rightarrow> int \<Rightarrow> limit_value" where
  "js_minus (Number a) n = Number (a - n)"
| "js_minus NaN n = NaN"
| "js_minus (Inherited name) n = NaN"

fun js_max0 :: "limit_value \<Rightarrow> limit_value" where
  "js_max0 (Number a) = Number (max 0 a)"
| "js_max0 NaN = NaN"
| "js_max0 (Inherited name) = NaN"

fun js_less :: "int \<Rightarrow> limit_value \<Rightarrow> bool" where
  "js_less n (Number b) = (n < b)"
| "js_less n NaN = False"
| "js_less n (Inherited name) = False"

text \<open>The object \<open>getStatus\<close> returns, and the one \<open>checkLimit\<close> returns.\<close>

record status_result =
  remaining :: limit_value
  total :: limit_value
  resetTime :: int
  userType :: string

record check_result = status_result +
  allowed :: bool

subsection \<open>The store\<close>

definition storage_get :: "storage_map \<Rightarrow> string \<Rightarrow> windowData option" where
  "storage_get m key = map_of m key"

definition storage_set :: "string \<Rightarrow> windowData \<Rightarrow> storage_map \<Rightarrow> storage_map" where
  "storage_set key v m = AList.update key v m"

definition storage_delete :: "string \<Rightarrow> storage_map \<Rightarrow> storage_map" where
  "storage_delete key m = AList.delete key m"

text \<open>A \<open>Map\<close> holds each key once.\<close>

definition distinct_keys :: "storage_map \<Rightarrow> bool" where
  "distinct_keys m = distinct (map fst m)"

subsection \<open>Construction\<close>

text \<open>
  \<open>parseInt(process.env.X) || d\<close>: the parsed value when it is a non-zero number,
  else the default (\<open>None\<close> is \<open>NaN\<close>, the result for an unset or non-numeric variable).
\<close>

definition or_default :: "int option \<Rightarrow> int \<Rightarrow> int" where
  "or_default parsed d = (case parsed of None \<Rightarrow> d | Some n \<Rightarrow> if n \<noteq> 0 then n else d)"

definition new_RateLimiter ::
  "int option \<Rightarrow> int option \<Rightarrow> int option \<Rightarrow> int option \<Rightarrow> rate_limiter" where
  "new_RateLimiter guest_limit free_limit premium_limit window_size_hours =
     \<lparr> storage = [],
       limits = \<lparr> guest = or_default guest_limit 3,
                  free = or_default free_limit 10,
                  premium = or_default premium_limit 50 \<rparr>,
       windowSize = or_default window_size_hours 1 * 60 * 60 * 1000 \<rparr>"

subsection \<open>Methods\<close>

definition getKey :: "user option \<Rightarrow> string \<Rightarrow> string" where
  "getKey usr ip =
     (case usr of
        None \<Rightarrow> ''ip:'' @ ip
      | Some u \<Rightarrow>
          if user_type u \<noteq> Some ''guest'' \<and> truthy (user_id u)
          then ''user:'' @ to_string (user_id u)
          else ''ip:'' @ ip)"

text \<open>\<open>user?.type || 'guest'\<close>: a missing or empty type reads as guest.\<close>

definition userType_of :: "user option \<Rightarrow> string" where
  "userType_of usr =
     (case usr of
        None \<Rightarrow> ''guest''
      | Some u \<Rightarrow> (case user_type u of
                     None \<Rightarrow> ''guest''
                   | Some t \<Rightarrow> if t \<noteq> [] then t else ''guest''))"

text \<open>The names of the members of \<open>Object.prototype\<close>, which every object literal inherits.\<close>

definition object_prototype_members :: "string list" where
  "object_prototype_members =
     [''constructor'', ''__defineGetter__'', ''__defineSetter__'', ''hasOwnProperty'',
      ''__lookupGetter__'', ''__lookupSetter__'', ''isPrototypeOf'',
      ''propertyIsEnumerable'', ''toString'', ''valueOf'', ''__proto__'',
      ''toLocaleString'']"

text \<open>
  \<open>this.limits[userType]\<close>: the own property of that name, else the inherited member of
  that name, else \<open>undefined\<close> (\<open>None\<close>).
\<close>

definition limits_at :: "limits_table \<Rightarrow> string \<Rightarrow> limit_value option" where
  "limits_at tbl t =
     (if t = ''guest'' then Some (Number (guest tbl))
      else if t = ''free'' then Some (Number (free tbl))
      else if t = ''premium'' then Some (Number (premium tbl))
      else if t \<in> set object_prototype_members then Some (Inherited t)
      else None)"

text \<open>\<open>this.limits[userType] || this.limits.guest\<close>.\<close>

definition getLimit :: "rate_limiter \<Rightarrow> user option \<Rightarrow> limit_value" where
  "getLimit rl usr =
     (let userType = userType_of usr in
      case limits_at (limits rl) userType of
        None \<Rightarrow> Number (guest (limits rl))
      | Some v \<Rightarrow> if truthy_value v then v else Number (guest (limits rl)))"

text \<open>
  The test \<open>(now - data.windowStart) >= this.windowSize\<close> that \<open>checkLimit\<close>,
  \<open>getStatus\<close> and \<open>cleanup\<close> apply to an entry: its window is over.
\<close>

definition expired :: "rate_limiter \<Rightarrow> int \<Rightarrow> windowData \<Rightarrow> bool" where
  "expired rl now d = (now - windowStart d \<ge> windowSize rl)"

text \<open>
  \<open>checkLimit\<close> returns the result object and the state it leaves. A missing entry or an
  entry whose window is over is replaced by a new window starting at \<open>now\<close>, and that
  window is stored before the limit is looked at. An admitted call increments the count
  of the object the map holds and stores it again under the same key.
\<close>

definition checkLimit ::
  "rate_limiter \<Rightarrow> user option \<Rightarrow> string \<Rightarrow> int \<Rightarrow> check_result \<times> rate_limiter" where
  "checkLimit rl usr ip now =
     (let key = getKey usr ip;
          limit = getLimit rl usr;
          (windowData, st1) =
            (case storage_get (storage rl) key of
               None \<Rightarrow>
                 (let w = \<lparr> count = 0, windowStart = now \<rparr>
                  in (w, storage_set key w (storage rl)))
             | Some d \<Rightarrow>
                 if expired rl now d
                 then (let w = \<lparr> count = 0, windowStart = now \<rparr>
                       in (w, storage_set key w (storage rl)))
                 else (d, storage rl));
          remaining = js_max0 (js_minus limit (int (count windowData)));
          allowed = js_less (int (count windowData)) limit;
          (windowData', st2) =
            (if allowed
             then (let w = windowData \<lparr> count := count windowData + 1 \<rparr>
                   in (w, storage_set key w st1))
             else (windowData, st1))
      in (\<lparr> remaining = (if allowed then js_minus remaining 1 else remaining),
            total = limit,
            resetTime = windowStart windowData' + windowSize rl,
            userType = userType_of usr,
            allowed = allowed \<rparr>,
          rl \<lparr> storage := st2 \<rparr>))"

text \<open>
  \<open>getStatus\<close> has no statement that writes to the store; it returns the state next to
  its result so that this is a property to prove and not a matter of its type.
\<close>

definition getStatus ::
  "rate_limiter \<Rightarrow> user option \<Rightarrow> string \<Rightarrow> int \<Rightarrow> status_result \<times> rate_limiter" where
  "getStatus rl usr ip now =
     (let key = getKey usr ip;
          limit = getLimit rl usr
      in case storage_get (storage rl) key of
           None \<Rightarrow>
             (\<lparr> remaining = limit, total = limit,
                resetTime = now + windowSize rl, userType = userType_of usr \<rparr>, rl)
         | Some d \<Rightarrow>
             if expired rl now d
             then (\<lparr> remaining = limit, total = limit,
                     resetTime = now + windowSize rl, userType = userType_of usr \<rparr>, rl)
             else (\<lparr> remaining = js_max0 (js_minus limit (int (count d))), total = limit,
                     resetTime = windowStart d + windowSize rl,
                     userType = userType_of usr \<rparr>, rl))"

text \<open>
  \<open>cleanup\<close> first collects the keys of the expired entries, in iteration order, then
  deletes them one by one.
\<close>

definition keysToDelete :: "rate_limiter \<Rightarrow> int \<Rightarrow> string list" where
  "keysToDelete rl now = map fst (filter (\<lambda>(key, d). expired rl now d) (storage rl))"

definition cleanup :: "rate_limiter \<Rightarrow> int \<Rightarrow> rate_limiter" where
  "cleanup rl now = rl \<lparr> storage := fold storage_delete (keysToDelete rl now) (storage rl) \<rparr>"

definition reset :: "rate_limiter \<Rightarrow> user option \<Rightarrow> string \<Rightarrow> rate_limiter" where
  "reset rl usr ip = rl \<lparr> storage := storage_delete (getKey usr ip) (storage rl) \<rparr>"

text \<open>\<open>getDebugInfo\<close>: every entry with the time left in its window.\<close>

definition getDebugInfo :: "rate_limiter \<Rightarrow> int \<Rightarrow> (string \<times> nat \<times> int \<times> int) list" where
  "getDebugInfo rl now =
     map (\<lambda>(key, d). (key, count d, windowStart d,
                       max 0 ((windowStart d + windowSize rl) - now))) (storage rl)"

subsection \<open>Derived notions\<close>

text \<open>
  The condition under which \<open>checkLimit\<close> and \<open>getStatus\<close> treat a key as new: the
  store has no entry for it, or the entry's window is over.
\<close>

definition fresh_key :: "rate_limiter \<Rightarrow> string \<Rightarrow> int \<Rightarrow> bool" where
  "fresh_key rl key now =
     (case storage_get (storage rl) key of None \<Rightarrow> True | Some d \<Rightarrow> expired rl now d)"

subsection \<open>Example states\<close>

text \<open>A limiter with the default limits whose guest at \<open>10.0.0.1\<close> has used all three slots.\<close>

definition saturated_guest :: rate_limiter where
  "saturated_guest =
     (new_RateLimiter None None None None)
       \<lparr> storage := [(''ip:10.0.0.1'', \<lparr>count = 3, windowStart = 1000\<rparr>),
                     (''user:7'', \<lparr>count = 2, windowStart = 500\<rparr>)] \<rparr>"

subsection \<open>Sequences of operations\<close>

text \<open>
  A call of one of the four state-changing or state-reading methods, with the clock value
  it reads. \<open>run\<close> performs a sequence of calls and returns the final state.
\<close>

datatype op =
    CheckLimit "user option" string int
  | GetStatus "user option" string int
  | Reset "user option" string
  | Cleanup int

fun exec_op :: "rate_limiter \<Rightarrow> op \<Rightarrow> rate_limiter" where
  "exec_op rl (CheckLimit usr ip now) = snd (checkLimit rl usr ip now)"
| "exec_op rl (GetStatus usr ip now) = snd (getStatus rl usr ip now)"
| "exec_op rl (Reset usr ip) = reset rl usr ip"
| "exec_op rl (Cleanup now) = cleanup rl now"

definition run :: "rate_limiter \<Rightarrow> op list \<Rightarrow> rate_limiter" where
  "run rl ops = foldl exec_op rl ops"

fun is_GetStatus :: "op \<Rightarrow> bool" where
  "is_GetStatus (GetStatus usr ip now) = True"
| "is_GetStatus _ = False"

text \<open>The same store after the guest's window has been left to run out, another one still running.\<close>

definition expired_guest :: rate_limiter where
  "expired_guest =
     (new_RateLimiter None None None None)
       \<lparr> storage := [(''ip:10.0.0.1'', \<lparr>count = 3, windowStart = 1000\<rparr>),
                     (''user:7'', \<lparr>count = 2, windowStart = 3000000\<rparr>)] \<rparr>"

text \<open>
  Limiters as the constructor builds them from the environment: one where the free
  tier's quota is configured as \<open>0\<close>, one where the guest quota is configured as \<open>-1\<close>.
  And an identity of the free tier.
\<close>

definition free_limit_zero :: rate_limiter where
  "free_limit_zero = new_RateLimiter None (Some 0) None None"

definition guest_limit_negative :: rate_limiter where
  "guest_limit_negative = new_RateLimiter (Some (- 1)) None None None"

definition free_user :: user where
  "free_user = \<lparr> user_type = Some ''free'', user_id = Num 1 \<rparr>"

text \<open>
  Repeated \<open>checkLimit\<close> calls by one identity from one address, at the given clock
  values: the results in call order, and the final state.
\<close>

fun checkLimit_seq ::
  "rate_limiter \<Rightarrow> user option \<Rightarrow> string \<Rightarrow> int list \<Rightarrow> check_result list \<times> rate_limiter" where
  "checkLimit_seq rl usr ip [] = ([], rl)"
| "checkLimit_seq rl usr ip (now # nows) =
     (let (r, rl') = checkLimit rl usr ip now;
          (rs, rl'') = checkLimit_seq rl' usr ip nows
      in (r # rs, rl''))"

text \<open>The limiter the constructor builds when no environment variable is set.\<close>

definition default_limiter :: rate_limiter where
  "default_limiter = new_RateLimiter None None None None"

text \<open>
  For every key, the limit used by the most recent \<open>checkLimit\<close> call that was admitted
  under that key, in a run of operations: \<open>last_limit_step\<close> records it at a call,
  \<open>track_admitted\<close> follows the run, \<open>admitted_limit\<close> starts with nothing recorded.
\<close>

fun last_limit_step ::
  "rate_limiter \<Rightarrow> (string \<Rightarrow> limit_value option) \<Rightarrow> op \<Rightarrow> (string \<Rightarrow> limit_value option)" where
  "last_limit_step rl g (CheckLimit usr ip now) =
     (if allowed (fst (checkLimit rl usr ip now))
      then g(getKey usr ip \<mapsto> getLimit rl usr) else g)"
| "last_limit_step rl g (GetStatus usr ip now) = g"
| "last_limit_step rl g (Reset usr ip) = g"
| "last_limit_step rl g (Cleanup now) = g"

fun track_admitted ::
  "rate_limiter \<Rightarrow> (string \<Rightarrow> limit_value option) \<Rightarrow> op list
     \<Rightarrow> (string \<Rightarrow> limit_value option)" where
  "track_admitted rl g [] = g"
| "track_admitted rl g (x # xs) = track_admitted (exec_op rl x) (last_limit_step rl g x) xs"

definition admitted_limit :: "rate_limiter \<Rightarrow> op list \<Rightarrow> string \<Rightarrow> limit_value option" where
  "admitted_limit rl ops = track_admitted rl (\<lambda>key. None) ops"

text \<open>Every stored count is zero or within the limit recorded for its key.\<close>

definition count_bounded :: "rate_limiter \<Rightarrow> (string \<Rightarrow> limit_value option) \<Rightarrow> bool" where
  "count_bounded rl g =
     (\<forall>key d. storage_get (storage rl) key = Some d \<longrightarrow>
        count d = 0 \<or> (\<exists>L. g key = Some (Number L) \<and> int (count d) \<le> L))"

text \<open>
  An identity of the premium tier that carries no id, and a run in which it uses four
  slots from the address \<open>10.0.0.1\<close> before a guest calls from the same address.
\<close>

definition premium_without_id :: user where
  "premium_without_id = \<lparr> user_type = Some ''premium'', user_id = Null \<rparr>"

definition shared_key_ops :: "op list" where
  "shared_key_ops =
     [CheckLimit (Some premium_without_id) ''10.0.0.1'' 1000,
      CheckLimit (Some premium_without_id) ''10.0.0.1'' 2000,
      CheckLimit (Some premium_without_id) ''10.0.0.1'' 3000,
      CheckLimit (Some premium_without_id) ''10.0.0.1'' 4000,
      CheckLimit None ''10.0.0.1'' 5000]"

section \<open>Basic facts about the store\<close>

lemma getLimit_storage [simp]: "getLimit (rl\<lparr>storage := st\<rparr>) usr = getLimit rl usr"
  by (simp add: getLimit_def split: option.splits)

lemma expired_storage [simp]: "expired (rl\<lparr>storage := st\<rparr>) now d = expired rl now d"
  by (simp add: expired_def)

lemma getLimit_limits: "limits rl' = limits rl \<Longrightarrow> getLimit rl' usr = getLimit rl usr"
  by (simp add: getLimit_def split: option.splits)

lemma storage_get_set:
  "storage_get (storage_set k v m) k' = (if k' = k then Some v else storage_get m k')"
  by (simp add: storage_get_def storage_set_def update_conv')

lemma storage_set_set [simp]: "storage_set k v (storage_set k v' m) = storage_set k v m"
  by (simp add: storage_set_def)

lemma storage_set_absent:
  "storage_get m k = None \<Longrightarrow> storage_set k v m = m @ [(k, v)]"
  by (induction m) (auto simp: storage_get_def storage_set_def split: if_splits)

lemma storage_get_delete:
  "storage_get (storage_delete k m) k' = (if k' = k then None else storage_get m k')"
  by (simp add: storage_get_def storage_delete_def delete_conv')

lemma storage_delete_absent: "storage_get m k = None \<Longrightarrow> storage_delete k m = m"
  by (simp add: storage_get_def storage_delete_def map_of_eq_None_iff)

lemma storage_get_filter_keys:
  "storage_get (filter (\<lambda>(k, d). Q k) m) key = (if Q key then storage_get m key else None)"
  by (induction m) (auto simp: storage_get_def)

lemma storage_get_filter:
  assumes "distinct_keys m"
  shows "storage_get (filter (\<lambda>(k, d). P d) m) key =
           (case storage_get m key of None \<Rightarrow> None | Some d \<Rightarrow> if P d then Some d else None)"
  using assms
proof (induction m)
  case Nil
  show ?case by (simp add: storage_get_def)
next
  case (Cons p m)
  then show ?case
    by (cases p) (auto simp: storage_get_def distinct_keys_def map_of_eq_None_iff image_iff
        split: option.splits)
qed

text \<open>Deleting a list of keys one by one keeps the entries under the other keys, in order.\<close>

lemma fold_storage_delete:
  "fold storage_delete ks m = filter (\<lambda>(k, d). k \<notin> set ks) m"
proof (induction ks arbitrary: m)
  case Nil
  show ?case by simp
next
  case (Cons k ks)
  have "fold storage_delete (k # ks) m
          = filter (\<lambda>(k', d). k' \<notin> set ks) (storage_delete k m)"
    by (simp add: Cons.IH)
  also have "\<dots> = filter (\<lambda>(k', d). k' \<notin> set (k # ks)) m"
    by (auto simp: storage_delete_def AList.delete_eq case_prod_unfold intro: filter_cong)
  finally show ?case .
qed

section \<open>The methods, case by case\<close>

text \<open>Only a number can exceed a number.\<close>

lemma js_less_iff: "js_less n v \<longleftrightarrow> (\<exists>L. v = Number L \<and> n < L)"
  by (cases v) auto

text \<open>
  \<open>checkLimit\<close> on a key that is absent or whose window is over, and on a key whose
  window is running.
\<close>

lemma checkLimit_fresh:
  assumes "fresh_key rl (getKey usr ip) now"
  shows "checkLimit rl usr ip now =
     (if js_less 0 (getLimit rl usr)
      then (\<lparr> remaining = js_minus (getLimit rl usr) 1, total = getLimit rl usr,
              resetTime = now + windowSize rl, userType = userType_of usr, allowed = True \<rparr>,
            rl \<lparr> storage := storage_set (getKey usr ip) \<lparr> count = 1, windowStart = now \<rparr> (storage rl) \<rparr>)
      else (\<lparr> remaining = js_max0 (getLimit rl usr), total = getLimit rl usr,
              resetTime = now + windowSize rl, userType = userType_of usr, allowed = False \<rparr>,
            rl \<lparr> storage := storage_set (getKey usr ip) \<lparr> count = 0, windowStart = now \<rparr> (storage rl) \<rparr>))"
  using assms
  by (cases "getLimit rl usr")
     (auto simp: checkLimit_def fresh_key_def Let_def split: option.splits)

lemma checkLimit_live:
  assumes "storage_get (storage rl) (getKey usr ip) = Some d" and "\<not> expired rl now d"
  shows "checkLimit rl usr ip now =
     (if js_less (int (count d)) (getLimit rl usr)
      then (\<lparr> remaining = js_minus (getLimit rl usr) (int (count d) + 1),
              total = getLimit rl usr,
              resetTime = windowStart d + windowSize rl, userType = userType_of usr,
              allowed = True \<rparr>,
            rl \<lparr> storage := storage_set (getKey usr ip) (d \<lparr> count := count d + 1 \<rparr>) (storage rl) \<rparr>)
      else (\<lparr> remaining = js_max0 (js_minus (getLimit rl usr) (int (count d))),
              total = getLimit rl usr,
              resetTime = windowStart d + windowSize rl, userType = userType_of usr,
              allowed = False \<rparr>, rl))"
  using assms
  by (cases "getLimit rl usr") (auto simp: checkLimit_def Let_def)

lemma checkLimit_limits [simp]: "limits (snd (checkLimit rl usr ip now)) = limits rl"
  by (simp add: checkLimit_def Let_def split: option.splits prod.splits)

lemma checkLimit_windowSize [simp]: "windowSize (snd (checkLimit rl usr ip now)) = windowSize rl"
  by (simp add: checkLimit_def Let_def split: option.splits prod.splits)

lemma getLimit_checkLimit [simp]:
  "getLimit (snd (checkLimit rl usr ip now)) usr' = getLimit rl usr'"
  by (rule getLimit_limits) simp

text \<open>
  An identity whose type names a member of \<open>Object.prototype\<close> has that member as its
  limit; \<open>checkLimit\<close> then denies every call and returns \<open>NaN\<close> as \<open>remaining\<close>.
\<close>

lemma getLimit_inherited:
  "userType_of usr \<in> set object_prototype_members \<Longrightarrow>
   getLimit rl usr = Inherited (userType_of usr)"
  by (auto simp: getLimit_def limits_at_def object_prototype_members_def)

lemma checkLimit_inherited:
  assumes "getLimit rl usr = Inherited name"
  shows "\<not> allowed (fst (checkLimit rl usr ip now))
       \<and> remaining (fst (checkLimit rl usr ip now)) = NaN
       \<and> total (fst (checkLimit rl usr ip now)) = Inherited name"
proof (cases "fresh_key rl (getKey usr ip) now")
  case True
  with assms show ?thesis by (simp add: checkLimit_fresh)
next
  case False
  then obtain d where "storage_get (storage rl) (getKey usr ip) = Some d" "\<not> expired rl now d"
    by (auto simp: fresh_key_def split: option.splits)
  with assms show ?thesis by (simp add: checkLimit_live)
qed

text \<open>\<open>getStatus\<close> on the same two cases; it never changes the state.\<close>

lemma getStatus_state [simp]: "snd (getStatus rl usr ip now) = rl"
  by (simp add: getStatus_def Let_def split: option.splits)

lemma getStatus_fresh:
  "fresh_key rl (getKey usr ip) now \<Longrightarrow>
   fst (getStatus rl usr ip now) =
     \<lparr> remaining = getLimit rl usr, total = getLimit rl usr,
       resetTime = now + windowSize rl, userType = userType_of usr \<rparr>"
  by (simp add: getStatus_def fresh_key_def Let_def split: option.splits)

lemma getStatus_live:
  "storage_get (storage rl) (getKey usr ip) = Some d \<Longrightarrow> \<not> expired rl now d \<Longrightarrow>
   fst (getStatus rl usr ip now) =
     \<lparr> remaining = js_max0 (js_minus (getLimit rl usr) (int (count d))),
       total = getLimit rl usr,
       resetTime = windowStart d + windowSize rl, userType = userType_of usr \<rparr>"
  by (simp add: getStatus_def Let_def)

text \<open>On a store with one entry per key, \<open>cleanup\<close> is a filter on the entries.\<close>

lemma keysToDelete_iff:
  assumes "distinct_keys (storage rl)" and "(k, d) \<in> set (storage rl)"
  shows "k \<in> set (keysToDelete rl now) \<longleftrightarrow> expired rl now d"
proof
  assume "k \<in> set (keysToDelete rl now)"
  then obtain d' where "(k, d') \<in> set (storage rl)" and e: "expired rl now d'"
    by (auto simp: keysToDelete_def)
  with assms have "d' = d"
    by (auto simp: distinct_keys_def dest: eq_key_imp_eq_value)
  with e show "expired rl now d" by simp
next
  assume "expired rl now d"
  with assms(2) show "k \<in> set (keysToDelete rl now)"
    by (force simp: keysToDelete_def)
qed

lemma storage_cleanup:
  assumes "distinct_keys (storage rl)"
  shows "storage (cleanup rl now) = filter (\<lambda>(k, d). \<not> expired rl now d) (storage rl)"
proof -
  have "filter (\<lambda>(k, d). k \<notin> set (keysToDelete rl now)) (storage rl)
          = filter (\<lambda>(k, d). \<not> expired rl now d) (storage rl)"
    by (rule filter_cong) (auto simp: keysToDelete_iff [OF assms])
  then show ?thesis
    by (simp add: cleanup_def fold_storage_delete)
qed

lemma storage_get_cleanup:
  "storage_get (storage (cleanup rl now)) key = Some d \<Longrightarrow> storage_get (storage rl) key = Some d"
  by (simp add: cleanup_def fold_storage_delete storage_get_filter_keys split: if_splits)

text \<open>Runs of operations.\<close>

lemma run_Nil [simp]: "run rl [] = rl"
  by (simp add: run_def)

lemma run_Cons [simp]: "run rl (x # xs) = run (exec_op rl x) xs"
  by (simp add: run_def)

lemma limits_exec_op [simp]: "limits (exec_op rl x) = limits rl"
  by (cases x) (simp_all add: reset_def cleanup_def)

lemma limits_run: "limits (run rl ops) = limits rl"
  by (induction ops arbitrary: rl) simp_all

text \<open>
  Every operation keeps the keys of the store distinct, so every state that a run
  reaches from an empty store holds each key once.
\<close>

lemma distinct_keys_exec_op:
  assumes "distinct_keys (storage rl)"
  shows "distinct_keys (storage (exec_op rl x))"
proof (cases x)
  case (CheckLimit usr ip now)
  with assms show ?thesis
    by (auto simp: checkLimit_def Let_def distinct_keys_def storage_set_def distinct_update
        split: option.splits)
next
  case (GetStatus usr ip now)
  with assms show ?thesis by simp
next
  case (Reset usr ip)
  with assms show ?thesis
    by (simp add: reset_def distinct_keys_def storage_delete_def distinct_delete)
next
  case (Cleanup now)
  with assms show ?thesis
    by (simp add: cleanup_def fold_storage_delete distinct_keys_def distinct_map_filter)
qed

lemma distinct_keys_run:
  "distinct_keys (storage rl) \<Longrightarrow> distinct_keys (storage (run rl ops))"
  by (induction ops arbitrary: rl) (simp_all add: distinct_keys_exec_op)

section \<open>Consumption within one window\<close>

lemma checkLimit_seq_Cons:
  "fst (checkLimit_seq rl usr ip (now # nows)) =
     fst (checkLimit rl usr ip now) # fst (checkLimit_seq (snd (checkLimit rl usr ip now)) usr ip nows)"
  by (simp add: case_prod_unfold Let_def)

lemma length_checkLimit_seq [simp]:
  "length (fst (checkLimit_seq rl usr ip nows)) = length nows"
  by (induction nows arbitrary: rl) (simp_all add: checkLimit_seq_Cons del: checkLimit_seq.simps(2))

declare checkLimit_seq.simps(2) [simp del]

lemma checkLimit_seq_live:
  assumes "storage_get (storage rl) (getKey usr ip) = Some d"
    and "\<forall>t \<in> set nows. t - windowStart d < windowSize rl"
    and "i < length nows"
    and "getLimit rl usr = Number L"
  shows "allowed (fst (checkLimit_seq rl usr ip nows) ! i) = (int (count d) + int i < L)
       \<and> remaining (fst (checkLimit_seq rl usr ip nows) ! i)
           = Number (max 0 (L - int (count d) - int i - 1))"
  using assms
proof (induction nows arbitrary: rl d i)
  case Nil
  then show ?case by simp
next
  case (Cons now nows)
  let ?rl' = "snd (checkLimit rl usr ip now)"
  note L = Cons.prems(4)
  from Cons.prems(2) have live: "\<not> expired rl now d"
    by (simp add: expired_def)
  note step = checkLimit_live [OF Cons.prems(1) live]
  show ?case
  proof (cases i)
    case 0
    then show ?thesis
      by (simp add: checkLimit_seq_Cons step L)
  next
    case (Suc j)
    define d' where "d' = (if int (count d) < L then d \<lparr> count := count d + 1 \<rparr> else d)"
    have get': "storage_get (storage ?rl') (getKey usr ip) = Some d'"
      using Cons.prems(1) by (simp add: step L d'_def storage_get_set)
    have win': "\<forall>t \<in> set nows. t - windowStart d' < windowSize ?rl'"
      using Cons.prems(2) by (simp add: d'_def)
    have j: "j < length nows"
      using Cons.prems(3) Suc by simp
    have L': "getLimit ?rl' usr = Number L"
      by (simp add: L)
    have nth: "fst (checkLimit_seq rl usr ip (now # nows)) ! Suc j
                 = fst (checkLimit_seq ?rl' usr ip nows) ! j"
      by (simp add: checkLimit_seq_Cons)
    from Cons.IH [OF get' win' j L']
    have "allowed (fst (checkLimit_seq ?rl' usr ip nows) ! j) = (int (count d') + int j < L)"
      and "remaining (fst (checkLimit_seq ?rl' usr ip nows) ! j)
             = Number (max 0 (L - int (count d') - int j - 1))"
      by simp_all
    then show ?thesis
      unfolding nth Suc by (cases "int (count d) < L") (auto simp: d'_def max_def)
  qed
qed

lemma checkLimit_seq_fresh:
  assumes "storage_get (storage rl) (getKey usr ip) = None"
    and "nows \<noteq> []"
    and "\<forall>t \<in> set nows. t - hd nows < windowSize rl"
    and "i < length nows"
    and "getLimit rl usr = Number L"
  shows "allowed (fst (checkLimit_seq rl usr ip nows) ! i) = (int i < L)
       \<and> remaining (fst (checkLimit_seq rl usr ip nows) ! i) = Number (max 0 (L - int i - 1))"
proof -
  from assms(2) obtain now rest where nows: "nows = now # rest"
    by (cases nows) auto
  let ?rl' = "snd (checkLimit rl usr ip now)"
  note L = assms(5)
  from assms(1) have f: "fresh_key rl (getKey usr ip) now"
    by (simp add: fresh_key_def)
  note step = checkLimit_fresh [OF f]
  show ?thesis
  proof (cases i)
    case 0
    then show ?thesis
      by (simp add: nows checkLimit_seq_Cons step L)
  next
    case (Suc j)
    define d' where "d' = \<lparr> count = (if 0 < L then 1 else 0), windowStart = now \<rparr>"
    have get': "storage_get (storage ?rl') (getKey usr ip) = Some d'"
      by (simp add: step L d'_def storage_get_set)
    have win': "\<forall>t \<in> set rest. t - windowStart d' < windowSize ?rl'"
      using assms(3) by (simp add: nows d'_def)
    have j: "j < length rest"
      using assms(4) Suc nows by simp
    have L': "getLimit ?rl' usr = Number L"
      by (simp add: L)
    have nth: "fst (checkLimit_seq rl usr ip nows) ! Suc j
                 = fst (checkLimit_seq ?rl' usr ip rest) ! j"
      by (simp add: nows checkLimit_seq_Cons)
    from checkLimit_seq_live [OF get' win' j L']
    have "allowed (fst (checkLimit_seq ?rl' usr ip rest) ! j) = (int (count d') + int j < L)"
      and "remaining (fst (checkLimit_seq ?rl' usr ip rest) ! j)
             = Number (max 0 (L - int (count d') - int j - 1))"
      by simp_all
    then show ?thesis
      unfolding nth Suc by (cases "0 < L") (auto simp: d'_def max_def)
  qed
qed

text \<open>
  Claim C1. One identity calls \<open>checkLimit\<close> from one address, starting on an empty
  store, at clock values that all lie inside the window the first call opens. Let the
  identity's limit be the number \<open>L\<close>. If the number \<open>N\<close> of calls is at most \<open>L\<close>, every
  call is admitted and the last returns \<open>remaining = L - N\<close>; if \<open>N = L + 1\<close>, the first
  \<open>L\<close> calls are admitted and the last is denied with \<open>remaining = 0\<close>.
\<close>

theorem checkLimit_monotonic_consumption:
  assumes "storage rl = []"
    and "nows \<noteq> []"
    and "\<forall>t \<in> set nows. t - hd nows < windowSize rl"
    and "rs = fst (checkLimit_seq rl usr ip nows)"
    and "getLimit rl usr = Number L"
  shows "(int (length nows) \<le> L \<longrightarrow>
            (\<forall>r \<in> set rs. allowed r) \<and> remaining (last rs) = Number (L - int (length nows)))
       \<and> (int (length nows) = L + 1 \<longrightarrow>
            (\<forall>r \<in> set (butlast rs). allowed r) \<and> \<not> allowed (last rs)
            \<and> remaining (last rs) = Number 0)"
proof -
  have absent: "storage_get (storage rl) (getKey usr ip) = None"
    using assms(1) by (simp add: storage_get_def)
  have len: "length rs = length nows"
    by (simp add: assms(4))
  have nth: "allowed (rs ! i) = (int i < L) \<and> remaining (rs ! i) = Number (max 0 (L - int i - 1))"
    if "i < length nows" for i
    using checkLimit_seq_fresh [OF absent assms(2,3) that assms(5)] by (simp add: assms(4))
  from assms(2) len have ne: "rs \<noteq> []" by auto
  then have last: "last rs = rs ! (length nows - 1)"
    by (simp add: last_conv_nth len)
  have lt: "length nows - 1 < length nows"
    using assms(2) by simp
  have a: "(\<forall>r \<in> set rs. allowed r) \<and> remaining (last rs) = Number (L - int (length nows))"
    if le: "int (length nows) \<le> L"
  proof
    show "\<forall>r \<in> set rs. allowed r"
    proof
      fix r assume "r \<in> set rs"
      then obtain i where "i < length nows" "r = rs ! i"
        by (auto simp: in_set_conv_nth len)
      with nth [of i] le show "allowed r" by simp
    qed
    from nth [OF lt] le lt show "remaining (last rs) = Number (L - int (length nows))"
      by (simp add: last of_nat_diff)
  qed
  have b: "(\<forall>r \<in> set (butlast rs). allowed r) \<and> \<not> allowed (last rs)
           \<and> remaining (last rs) = Number 0"
    if eq: "int (length nows) = L + 1"
  proof (intro conjI)
    show "\<forall>r \<in> set (butlast rs). allowed r"
    proof
      fix r assume "r \<in> set (butlast rs)"
      then obtain i where i: "i < length nows - 1" "r = butlast rs ! i"
        by (auto simp: in_set_conv_nth len)
      then have "r = rs ! i"
        by (simp add: nth_butlast len)
      with nth [of i] i eq show "allowed r" by simp
    qed
    from nth [OF lt] eq lt show "\<not> allowed (last rs)"
      by (simp add: last of_nat_diff)
    from nth [OF lt] eq lt show "remaining (last rs) = Number 0"
      by (simp add: last of_nat_diff)
  qed
  from a b show ?thesis by blast
qed

theorem checkLimit_monotonic_consumption_witness:
  "storage default_limiter = []
   \<and> getLimit default_limiter None = Number 3
   \<and> list_all allowed (fst (checkLimit_seq default_limiter None ''10.0.0.1'' [1000, 2000, 3000]))
   \<and> remaining (last (fst (checkLimit_seq default_limiter None ''10.0.0.1'' [1000, 2000, 3000])))
       = Number 0
   \<and> list_all allowed
        (butlast (fst (checkLimit_seq default_limiter None ''10.0.0.1'' [1000, 2000, 3000, 4000])))
   \<and> \<not> allowed (last (fst (checkLimit_seq default_limiter None ''10.0.0.1'' [1000, 2000, 3000, 4000])))
   \<and> remaining (last (fst (checkLimit_seq default_limiter None ''10.0.0.1'' [1000, 2000, 3000, 4000])))
       = Number 0"
proof -
  have s: "storage default_limiter = []"
    and w: "windowSize default_limiter = 3600000"
    by (simp_all add: default_limiter_def new_RateLimiter_def or_default_def)
  have l: "getLimit default_limiter None = Number 3"
    by (simp add: default_limiter_def new_RateLimiter_def or_default_def getLimit_def
        userType_of_def limits_at_def)
  have n3: "[1000, 2000, 3000 :: int] \<noteq> []" and n4: "[1000, 2000, 3000, 4000 :: int] \<noteq> []"
    by simp_all
  have i3: "\<forall>t \<in> set [1000, 2000, 3000]. t - hd [1000, 2000, 3000] < windowSize default_limiter"
    and i4: "\<forall>t \<in> set [1000, 2000, 3000, 4000].
               t - hd [1000, 2000, 3000, 4000] < windowSize default_limiter"
    by (simp_all add: w)
  from checkLimit_monotonic_consumption [OF s n3 i3 refl l, of "''10.0.0.1''"]
  have three: "list_all allowed (fst (checkLimit_seq default_limiter None ''10.0.0.1'' [1000, 2000, 3000]))
      \<and> remaining (last (fst (checkLimit_seq default_limiter None ''10.0.0.1'' [1000, 2000, 3000])))
          = Number 0"
    by (simp add: list_all_iff)
  from checkLimit_monotonic_consumption [OF s n4 i4 refl l, of "''10.0.0.1''"]
  have four: "list_all allowed
        (butlast (fst (checkLimit_seq default_limiter None ''10.0.0.1'' [1000, 2000, 3000, 4000])))
   \<and> \<not> allowed (last (fst (checkLimit_seq default_limiter None ''10.0.0.1'' [1000, 2000, 3000, 4000])))
   \<and> remaining (last (fst (checkLimit_seq default_limiter None ''10.0.0.1'' [1000, 2000, 3000, 4000])))
       = Number 0"
    by (simp add: list_all_iff)
  from s l three four show ?thesis by blast
qed

section \<open>Stored counts and limits\<close>

lemma count_bounded_step:
  assumes "count_bounded rl g"
  shows "count_bounded (exec_op rl x) (last_limit_step rl g x)"
proof (cases x)
  case (CheckLimit usr ip now)
  show ?thesis
  proof (cases "fresh_key rl (getKey usr ip) now")
    case True
    with assms show ?thesis
      by (auto simp: CheckLimit count_bounded_def checkLimit_fresh storage_get_set js_less_iff
          split: if_splits)
  next
    case False
    then obtain d where "storage_get (storage rl) (getKey usr ip) = Some d" "\<not> expired rl now d"
      by (auto simp: fresh_key_def split: option.splits)
    with assms show ?thesis
      by (auto simp: CheckLimit count_bounded_def checkLimit_live storage_get_set js_less_iff
          split: if_splits)
  qed
next
  case (GetStatus usr ip now)
  with assms show ?thesis by simp
next
  case (Reset usr ip)
  with assms show ?thesis
    by (auto simp: count_bounded_def reset_def storage_get_delete split: if_splits)
next
  case (Cleanup now)
  with assms show ?thesis
    by (auto simp: count_bounded_def dest!: storage_get_cleanup)
qed

lemma count_bounded_run:
  "count_bounded rl g \<Longrightarrow> count_bounded (run rl ops) (track_admitted rl g ops)"
proof (induction ops arbitrary: rl g)
  case Nil
  then show ?case by simp
next
  case (Cons x xs)
  from Cons.prems have "count_bounded (exec_op rl x) (last_limit_step rl g x)"
    by (rule count_bounded_step)
  then show ?case
    by (simp add: Cons.IH)
qed

lemma checkLimit_admitted_count:
  assumes "allowed (fst (checkLimit rl usr ip now))"
  shows "\<exists>d L. storage_get (storage (snd (checkLimit rl usr ip now))) (getKey usr ip) = Some d
             \<and> getLimit rl usr = Number L \<and> 0 < count d \<and> int (count d) \<le> L"
proof (cases "fresh_key rl (getKey usr ip) now")
  case True
  with assms show ?thesis
    by (auto simp: checkLimit_fresh storage_get_set js_less_iff split: if_splits)
next
  case False
  then obtain d where "storage_get (storage rl) (getKey usr ip) = Some d" "\<not> expired rl now d"
    by (auto simp: fresh_key_def split: option.splits)
  with assms show ?thesis
    by (auto simp: checkLimit_live storage_get_set js_less_iff split: if_splits)
qed

text \<open>
  Claim C2 does not hold as stated: a stored count can exceed the limit of the tier that
  accessed the key last. A premium
  identity without id is keyed by its address, like a guest; after it has used four
  slots, a guest's call from that address is denied and leaves the count at \<open>4\<close>, above
  the guest limit of \<open>3\<close>.
\<close>

theorem shared_key_count_counterexample:
  "map_option count
      (storage_get (storage (run default_limiter shared_key_ops)) (getKey None ''10.0.0.1''))
     = Some 4
   \<and> last shared_key_ops = CheckLimit None ''10.0.0.1'' 5000
   \<and> getLimit (run default_limiter shared_key_ops) None = Number 3"
  by (simp add: default_limiter_def new_RateLimiter_def or_default_def shared_key_ops_def
      premium_without_id_def checkLimit_def getKey_def getLimit_def userType_of_def
      limits_at_def storage_get_def storage_set_def expired_def Let_def)

text \<open>
  Claim C2, amended. After any sequence of \<open>checkLimit\<close>, \<open>getStatus\<close>, \<open>reset\<close> and
  \<open>cleanup\<close> calls on an empty store, every stored count is \<open>0\<close> or is at most the limit
  used by the most recent call that was admitted under that key; and whenever
  \<open>checkLimit\<close> then admits a call, the count stored for the call's key is at most the
  limit that call used.
\<close>

theorem stored_count_within_admitted_limit:
  assumes "storage rl = []"
    and "storage_get (storage (run rl ops)) key = Some d"
  shows "(count d = 0
          \<or> (\<exists>L. admitted_limit rl ops key = Some (Number L) \<and> int (count d) \<le> L))
       \<and> (allowed (fst (checkLimit (run rl ops) usr ip now)) \<longrightarrow>
            (\<exists>d' L. storage_get (storage (snd (checkLimit (run rl ops) usr ip now)))
                       (getKey usr ip) = Some d'
                  \<and> getLimit (run rl ops) usr = Number L
                  \<and> int (count d') \<le> L))"
proof
  from assms(1) have "count_bounded rl (\<lambda>key. None)"
    by (simp add: count_bounded_def storage_get_def)
  then have "count_bounded (run rl ops) (admitted_limit rl ops)"
    unfolding admitted_limit_def by (rule count_bounded_run)
  with assms(2)
  show "count d = 0 \<or> (\<exists>L. admitted_limit rl ops key = Some (Number L) \<and> int (count d) \<le> L)"
    by (simp add: count_bounded_def)
next
  show "allowed (fst (checkLimit (run rl ops) usr ip now)) \<longrightarrow>
            (\<exists>d' L. storage_get (storage (snd (checkLimit (run rl ops) usr ip now)))
                       (getKey usr ip) = Some d'
                  \<and> getLimit (run rl ops) usr = Number L
                  \<and> int (count d') \<le> L)"
    using checkLimit_admitted_count [of "run rl ops" usr ip now] by blast
qed

theorem stored_count_within_admitted_limit_witness:
  "storage default_limiter = []
   \<and> storage_get (storage (run default_limiter shared_key_ops)) ''ip:10.0.0.1''
       = Some \<lparr>count = 4, windowStart = 1000\<rparr>
   \<and> (\<exists>L. admitted_limit default_limiter shared_key_ops ''ip:10.0.0.1'' = Some (Number L)
          \<and> 4 \<le> L)
   \<and> allowed (fst (checkLimit (run default_limiter shared_key_ops)
                     (Some premium_without_id) ''10.0.0.1'' 6000))
   \<and> (\<exists>d' L. storage_get (storage (snd (checkLimit (run default_limiter shared_key_ops)
                     (Some premium_without_id) ''10.0.0.1'' 6000)))
               (getKey (Some premium_without_id) ''10.0.0.1'') = Some d'
            \<and> getLimit (run default_limiter shared_key_ops) (Some premium_without_id) = Number L
            \<and> int (count d') \<le> L)"
proof -
  have s: "storage default_limiter = []"
    by (simp add: default_limiter_def new_RateLimiter_def)
  have r: "run default_limiter shared_key_ops =
      default_limiter \<lparr> storage := [(''ip:10.0.0.1'', \<lparr>count = 4, windowStart = 1000\<rparr>)] \<rparr>"
    by (simp add: default_limiter_def new_RateLimiter_def or_default_def shared_key_ops_def
        premium_without_id_def checkLimit_def getKey_def getLimit_def userType_of_def
        limits_at_def storage_get_def storage_set_def expired_def Let_def)
  have g: "storage_get (storage (run default_limiter shared_key_ops)) ''ip:10.0.0.1''
       = Some \<lparr>count = 4, windowStart = 1000\<rparr>"
    by (simp add: r storage_get_def)
  have a: "allowed (fst (checkLimit (run default_limiter shared_key_ops)
                     (Some premium_without_id) ''10.0.0.1'' 6000))"
    unfolding r
    by (simp add: default_limiter_def new_RateLimiter_def or_default_def
        premium_without_id_def checkLimit_def getKey_def getLimit_def userType_of_def
        limits_at_def storage_get_def storage_set_def expired_def Let_def)
  from stored_count_within_admitted_limit [OF s g, of "Some premium_without_id" "''10.0.0.1''" 6000]
    a s g
  show ?thesis by simp
qed

section \<open>Key derivation\<close>

text \<open>
  Claim C4 does not hold as stated: an identity that is present, is not a guest and
  carries a non-null id is not always keyed by its id. An id that is not null but falsy,
  such as the number \<open>0\<close>, is sent to the address-based key.
\<close>

theorem getKey_falsy_id_counterexample:
  "user_type \<lparr>user_type = Some ''free'', user_id = Num 0\<rparr> \<noteq> Some ''guest'' \<and>
   user_id \<lparr>user_type = Some ''free'', user_id = Num 0\<rparr> \<noteq> Null \<and>
   getKey (Some \<lparr>user_type = Some ''free'', user_id = Num 0\<rparr>) ''10.0.0.1'' = ''ip:10.0.0.1'' \<and>
   getKey (Some \<lparr>user_type = Some ''free'', user_id = Num 0\<rparr>) ''10.0.0.1''
     \<noteq> ''user:'' @ to_string (Num 0)"
  by (simp add: getKey_def)

text \<open>
  Claim C4, amended. \<open>getKey\<close> is a function of the identity and the origin address
  alone. It returns \<open>user:<id>\<close> exactly when the identity is present, its type is not
  \<open>guest\<close> and its id is truthy (neither undefined, null, \<open>0\<close> nor the empty string);
  in every other case it returns \<open>ip:<originAddress>\<close>. The two forms never coincide.
\<close>

theorem getKey_truthy_id:
  "getKey usr ip =
     (case usr of
        None \<Rightarrow> ''ip:'' @ ip
      | Some u \<Rightarrow>
          if user_type u = Some ''guest'' \<or> user_id u \<in> {Undefined, Null, Num 0, Str []}
          then ''ip:'' @ ip
          else ''user:'' @ to_string (user_id u))
   \<and> ''ip:'' @ ip \<noteq> ''user:'' @ s"
proof -
  have "truthy v \<longleftrightarrow> v \<notin> {Undefined, Null, Num 0, Str []}" for v
    by (cases v) auto
  then show ?thesis
    by (auto simp: getKey_def split: option.splits)
qed

theorem getKey_truthy_id_witness:
  "getKey (Some \<lparr>user_type = Some ''free'', user_id = Num 123\<rparr>) ''192.168.1.1'' = ''user:123''
   \<and> getKey (Some \<lparr>user_type = Some ''guest'', user_id = Null\<rparr>) ''192.168.1.1'' = ''ip:192.168.1.1''
   \<and> getKey None ''192.168.1.1'' = ''ip:192.168.1.1''"
  using getKey_truthy_id [of "Some \<lparr>user_type = Some ''free'', user_id = Num 123\<rparr>" "''192.168.1.1''" "[]"]
    getKey_truthy_id [of "Some \<lparr>user_type = Some ''guest'', user_id = Null\<rparr>" "''192.168.1.1''" "[]"]
    getKey_truthy_id [of None "''192.168.1.1''" "[]"]
  by (simp add: string_of_int_def string_of_nat.simps digit_char_def)

section \<open>A limit of zero\<close>

text \<open>
  Claim C5 does not hold as stated: a tier whose quota is configured as \<open>0\<close> is not
  thereby shut out. The constructor reads a configured \<open>0\<close> as unset and takes the
  tier's default, so with \<open>FREE_LIMIT=0\<close> a free user has the limit \<open>10\<close> and is admitted.
\<close>

theorem configured_zero_quota_counterexample:
  "free_limit_zero = new_RateLimiter None (Some 0) None None
   \<and> free (limits free_limit_zero) = 10
   \<and> getLimit free_limit_zero (Some free_user) = Number 10
   \<and> allowed (fst (checkLimit free_limit_zero (Some free_user) ''10.0.0.1'' 1000))"
  by (simp add: free_limit_zero_def free_user_def new_RateLimiter_def or_default_def
      limits_at_def userType_of_def checkLimit_def getLimit_def getKey_def
      storage_get_def Let_def)

text \<open>
  Claim C5, amended. When the limit that applies to a request is a number that is not
  positive, \<open>checkLimit\<close> admits nothing, whatever the store and the time. A limit of
  exactly \<open>0\<close> does not arise: on a limiter the constructor built, after any sequence
  of operations, \<open>getLimit\<close> resolves no identity to \<open>0\<close>, because the constructor
  replaces a quota configured as \<open>0\<close> by the tier's default (\<open>3\<close>, \<open>10\<close>, \<open>50\<close>).
\<close>

theorem checkLimit_nonpositive_limit:
  "(getLimit rl usr = Number L \<and> L \<le> 0 \<longrightarrow> \<not> allowed (fst (checkLimit rl usr ip now)))
   \<and> getLimit (run (new_RateLimiter g f p w) ops) usr \<noteq> Number 0
   \<and> limits (new_RateLimiter (Some 0) (Some 0) (Some 0) w)
       = \<lparr> guest = 3, free = 10, premium = 50 \<rparr>"
proof (intro conjI impI)
  assume L: "getLimit rl usr = Number L \<and> L \<le> 0"
  show "\<not> allowed (fst (checkLimit rl usr ip now))"
  proof (cases "fresh_key rl (getKey usr ip) now")
    case True
    with L show ?thesis by (simp add: checkLimit_fresh)
  next
    case False
    then obtain d where "storage_get (storage rl) (getKey usr ip) = Some d" "\<not> expired rl now d"
      by (auto simp: fresh_key_def split: option.splits)
    with L show ?thesis by (simp add: checkLimit_live)
  qed
next
  have nz: "or_default x d \<noteq> 0" if "d \<noteq> 0" for x d
    using that by (simp add: or_default_def split: option.splits)
  have "guest (limits (new_RateLimiter g f p w)) \<noteq> 0"
    and "free (limits (new_RateLimiter g f p w)) \<noteq> 0"
    and "premium (limits (new_RateLimiter g f p w)) \<noteq> 0"
    by (simp_all add: new_RateLimiter_def nz)
  then have "getLimit (new_RateLimiter g f p w) usr \<noteq> Number 0"
    by (auto simp: getLimit_def limits_at_def Let_def split: if_splits)
  then show "getLimit (run (new_RateLimiter g f p w) ops) usr \<noteq> Number 0"
    by (simp add: getLimit_limits [OF limits_run])
next
  show "limits (new_RateLimiter (Some 0) (Some 0) (Some 0) w)
          = \<lparr> guest = 3, free = 10, premium = 50 \<rparr>"
    by (simp add: new_RateLimiter_def or_default_def)
qed

theorem checkLimit_nonpositive_limit_witness:
  "getLimit guest_limit_negative None = Number (- 1)
   \<and> (- 1 :: int) \<le> 0
   \<and> \<not> allowed (fst (checkLimit guest_limit_negative None ''10.0.0.1'' 1000))
   \<and> getLimit (run free_limit_zero [CheckLimit (Some free_user) ''10.0.0.1'' 1000])
        (Some free_user) \<noteq> Number 0"
proof -
  have a: "getLimit guest_limit_negative None = Number (- 1)"
    by (simp add: guest_limit_negative_def new_RateLimiter_def or_default_def getLimit_def
        userType_of_def limits_at_def)
  from checkLimit_nonpositive_limit
      [of guest_limit_negative None "- 1" "''10.0.0.1''" 1000] a
    checkLimit_nonpositive_limit
      [of _ "Some free_user" _ _ _ None "Some 0" None None
          "[CheckLimit (Some free_user) ''10.0.0.1'' 1000]"]
  show ?thesis
    by (simp add: free_limit_zero_def)
qed

section \<open>Status inspection\<close>

lemma run_GetStatus: "\<forall>x \<in> set ops. is_GetStatus x \<Longrightarrow> run rl ops = rl"
proof (induction ops)
  case Nil
  show ?case by simp
next
  case (Cons x xs)
  then obtain usr ip now where "x = GetStatus usr ip now"
    by (cases x) auto
  with Cons show ?case by simp
qed

text \<open>
  Claim C6. \<open>getStatus\<close> hands back the state it was given. Hence any sequence of
  \<open>getStatus\<close> calls, for any identities, addresses and times, leaves the state as it
  was, and a later \<open>checkLimit\<close> returns the same result and the same state as it would
  have without them. For a key that is absent or whose window is over, \<open>getStatus\<close>
  reports the full limit and a reset time of \<open>now + windowSize\<close>, again without writing.
\<close>

theorem getStatus_no_mutation:
  "snd (getStatus rl usr ip now) = rl
   \<and> ((\<forall>x \<in> set ops. is_GetStatus x) \<longrightarrow>
        run rl ops = rl
        \<and> checkLimit (run rl ops) usr' ip' now' = checkLimit rl usr' ip' now')
   \<and> (fresh_key rl (getKey usr ip) now \<longrightarrow>
        remaining (fst (getStatus rl usr ip now)) = getLimit rl usr
        \<and> resetTime (fst (getStatus rl usr ip now)) = now + windowSize rl)"
  by (simp add: run_GetStatus getStatus_fresh)

theorem getStatus_no_mutation_witness:
  "is_GetStatus (GetStatus None ''10.0.0.1'' 3601000)
   \<and> is_GetStatus (GetStatus None ''10.0.0.2'' 3601001)
   \<and> run expired_guest [GetStatus None ''10.0.0.1'' 3601000, GetStatus None ''10.0.0.2'' 3601001]
       = expired_guest
   \<and> checkLimit (run expired_guest
         [GetStatus None ''10.0.0.1'' 3601000, GetStatus None ''10.0.0.2'' 3601001])
         None ''10.0.0.1'' 3601002
       = checkLimit expired_guest None ''10.0.0.1'' 3601002
   \<and> fresh_key expired_guest (getKey None ''10.0.0.1'') 3601000
   \<and> remaining (fst (getStatus expired_guest None ''10.0.0.1'' 3601000)) = Number 3
   \<and> resetTime (fst (getStatus expired_guest None ''10.0.0.1'' 3601000)) = 7201000
   \<and> snd (getStatus expired_guest None ''10.0.0.1'' 3601000) = expired_guest"
proof -
  have f: "fresh_key expired_guest (getKey None ''10.0.0.1'') 3601000"
    by (simp add: fresh_key_def expired_guest_def new_RateLimiter_def or_default_def
        getKey_def storage_get_def expired_def)
  have l: "getLimit expired_guest None = Number 3"
    by (simp add: expired_guest_def new_RateLimiter_def or_default_def getLimit_def
        userType_of_def limits_at_def)
  have w: "windowSize expired_guest = 3600000"
    by (simp add: expired_guest_def new_RateLimiter_def or_default_def)
  from getStatus_no_mutation [of expired_guest None "''10.0.0.1''" 3601000
      "[GetStatus None ''10.0.0.1'' 3601000, GetStatus None ''10.0.0.2'' 3601001]"
      None "''10.0.0.1''" 3601002] f
  show ?thesis by (simp add: l w)
qed

section \<open>Window reset\<close>

text \<open>
  Claim C7. When the stored window of a key is over (\<open>now - windowStart \<ge> windowSize\<close>),
  the next \<open>checkLimit\<close> for the key answers as it would had the key never been seen:
  the old count is dropped whatever it was, the stored window starts at \<open>now\<close>, and an
  admitted call returns \<open>remaining = limit - 1\<close>. The call is admitted exactly when
  \<open>0 < limit\<close>.
\<close>

theorem checkLimit_window_reset:
  assumes "storage_get (storage rl) (getKey usr ip) = Some d"
    and "now - windowStart d \<ge> windowSize rl"
  shows "fst (checkLimit rl usr ip now)
           = fst (checkLimit (reset rl usr ip) usr ip now)
       \<and> storage_get (storage (snd (checkLimit rl usr ip now))) (getKey usr ip)
           = Some \<lparr>count = (if allowed (fst (checkLimit rl usr ip now)) then 1 else 0),
                   windowStart = now\<rparr>
       \<and> allowed (fst (checkLimit rl usr ip now)) = js_less 0 (getLimit rl usr)
       \<and> (allowed (fst (checkLimit rl usr ip now))
            \<longrightarrow> remaining (fst (checkLimit rl usr ip now)) = js_minus (getLimit rl usr) 1)
       \<and> resetTime (fst (checkLimit rl usr ip now)) = now + windowSize rl"
proof -
  from assms have f: "fresh_key rl (getKey usr ip) now"
    by (simp add: fresh_key_def expired_def)
  have g: "fresh_key (reset rl usr ip) (getKey usr ip) now"
    by (simp add: fresh_key_def reset_def storage_get_delete)
  have l: "getLimit (reset rl usr ip) usr = getLimit rl usr"
    by (simp add: reset_def)
  have w: "windowSize (reset rl usr ip) = windowSize rl"
    by (simp add: reset_def)
  show ?thesis
    by (simp add: checkLimit_fresh [OF f] checkLimit_fresh [OF g] l w storage_get_set)
qed

theorem checkLimit_window_reset_witness:
  "storage_get (storage expired_guest) (getKey None ''10.0.0.1'')
     = Some \<lparr>count = 3, windowStart = 1000\<rparr>
   \<and> 3601000 - windowStart \<lparr>count = 3, windowStart = 1000\<rparr> \<ge> windowSize expired_guest
   \<and> allowed (fst (checkLimit expired_guest None ''10.0.0.1'' 3601000))
   \<and> remaining (fst (checkLimit expired_guest None ''10.0.0.1'' 3601000)) = Number 2
   \<and> storage_get (storage (snd (checkLimit expired_guest None ''10.0.0.1'' 3601000)))
        (getKey None ''10.0.0.1'') = Some \<lparr>count = 1, windowStart = 3601000\<rparr>"
proof -
  have a: "storage_get (storage expired_guest) (getKey None ''10.0.0.1'')
     = Some \<lparr>count = 3, windowStart = 1000\<rparr>"
    by (simp add: expired_guest_def new_RateLimiter_def getKey_def storage_get_def)
  have b: "3601000 - windowStart \<lparr>count = 3, windowStart = 1000\<rparr> \<ge> windowSize expired_guest"
    by (simp add: expired_guest_def new_RateLimiter_def or_default_def)
  have c: "getLimit expired_guest None = Number 3"
    by (simp add: expired_guest_def new_RateLimiter_def or_default_def getLimit_def
        userType_of_def limits_at_def)
  from checkLimit_window_reset [OF a b, THEN conjunct2] a b c show ?thesis
    by simp
qed

section \<open>Reset\<close>

text \<open>
  Claim C8. \<open>reset\<close> removes the entry of the derived key and nothing else. On a key
  without entry it leaves the state as it is, and a second reset changes nothing. The
  next \<open>checkLimit\<close> for the key answers as on an empty store: it is admitted exactly
  when \<open>0 < limit\<close>, then returns \<open>remaining = limit - 1\<close>, and it appends a window
  starting at \<open>now\<close>; \<open>getStatus\<close> after a reset reports \<open>remaining = limit\<close>.
\<close>

theorem reset_idempotent_fresh:
  "storage_get (storage (reset rl usr ip)) (getKey usr ip) = None
   \<and> (if storage_get (storage rl) (getKey usr ip) = None
      then reset rl usr ip = rl
      else storage (reset rl usr ip) = filter (\<lambda>(k, d). k \<noteq> getKey usr ip) (storage rl))
   \<and> reset (reset rl usr ip) usr ip = reset rl usr ip
   \<and> checkLimit (reset rl usr ip) usr ip now =
       (\<lparr> remaining = (if js_less 0 (getLimit rl usr) then js_minus (getLimit rl usr) 1
                        else js_max0 (getLimit rl usr)),
          total = getLimit rl usr, resetTime = now + windowSize rl,
          userType = userType_of usr, allowed = js_less 0 (getLimit rl usr) \<rparr>,
        rl \<lparr> storage := storage (reset rl usr ip) @
               [(getKey usr ip, \<lparr>count = (if js_less 0 (getLimit rl usr) then 1 else 0),
                                  windowStart = now\<rparr>)] \<rparr>)
   \<and> fst (checkLimit (reset rl usr ip) usr ip now)
       = fst (checkLimit (rl \<lparr> storage := [] \<rparr>) usr ip now)
   \<and> remaining (fst (getStatus (reset rl usr ip) usr ip now)) = getLimit rl usr"
proof -
  let ?key = "getKey usr ip"
  have g: "fresh_key (reset rl usr ip) ?key now"
    by (simp add: fresh_key_def reset_def storage_get_delete)
  have e: "fresh_key (rl \<lparr> storage := [] \<rparr>) ?key now"
    by (simp add: fresh_key_def storage_get_def)
  have l: "getLimit (reset rl usr ip) usr = getLimit rl usr"
    by (simp add: reset_def)
  have w: "windowSize (reset rl usr ip) = windowSize rl"
    by (simp add: reset_def)
  have absent: "storage_get (storage (reset rl usr ip)) ?key = None"
    by (simp add: reset_def storage_get_delete)
  have app: "storage_set ?key v (storage (reset rl usr ip))
               = storage (reset rl usr ip) @ [(?key, v)]" for v
    using absent by (rule storage_set_absent)
  have r: "rl \<lparr> storage := storage (reset rl usr ip) \<rparr> = reset rl usr ip"
    by (simp add: reset_def)
  have c1: "storage_get (storage rl) ?key = None \<Longrightarrow> reset rl usr ip = rl"
    by (simp add: reset_def storage_delete_absent)
  have c2: "storage (reset rl usr ip) = filter (\<lambda>(k, d). k \<noteq> ?key) (storage rl)"
    by (simp add: reset_def storage_delete_def AList.delete_eq case_prod_unfold eq_commute)
  have c3: "reset (reset rl usr ip) usr ip = reset rl usr ip"
    by (simp add: reset_def storage_delete_def delete_idem)
  have c4: "remaining (fst (getStatus (reset rl usr ip) usr ip now)) = getLimit rl usr"
    by (simp add: getStatus_fresh [OF g] l)
  have u: "(reset rl usr ip) \<lparr> storage := st \<rparr> = rl \<lparr> storage := st \<rparr>" for st
    by (simp add: reset_def)
  have c5: "checkLimit (reset rl usr ip) usr ip now =
       (\<lparr> remaining = (if js_less 0 (getLimit rl usr) then js_minus (getLimit rl usr) 1
                        else js_max0 (getLimit rl usr)),
          total = getLimit rl usr, resetTime = now + windowSize rl,
          userType = userType_of usr, allowed = js_less 0 (getLimit rl usr) \<rparr>,
        rl \<lparr> storage := storage (reset rl usr ip) @
               [(getKey usr ip, \<lparr>count = (if js_less 0 (getLimit rl usr) then 1 else 0),
                                  windowStart = now\<rparr>)] \<rparr>)"
    by (simp add: checkLimit_fresh [OF g] l w app u)
  have c6: "fst (checkLimit (reset rl usr ip) usr ip now)
       = fst (checkLimit (rl \<lparr> storage := [] \<rparr>) usr ip now)"
    by (simp add: checkLimit_fresh [OF g] checkLimit_fresh [OF e] l w)
  from c1 c2 have c12: "if storage_get (storage rl) ?key = None
      then reset rl usr ip = rl
      else storage (reset rl usr ip) = filter (\<lambda>(k, d). k \<noteq> ?key) (storage rl)"
    by simp
  from absent c12 c3 c5 c6 c4 show ?thesis
    by (intro conjI)
qed

theorem reset_idempotent_fresh_witness:
  "storage_get (storage (reset saturated_guest None ''10.0.0.1'')) ''ip:10.0.0.1'' = None
   \<and> storage (reset saturated_guest None ''10.0.0.1'')
       = [(''user:7'', \<lparr>count = 2, windowStart = 500\<rparr>)]
   \<and> reset (reset saturated_guest None ''10.0.0.1'') None ''10.0.0.1''
       = reset saturated_guest None ''10.0.0.1''
   \<and> reset saturated_guest None ''10.0.0.9'' = saturated_guest
   \<and> allowed (fst (checkLimit (reset saturated_guest None ''10.0.0.1'') None ''10.0.0.1'' 2000))
   \<and> remaining (fst (checkLimit (reset saturated_guest None ''10.0.0.1'') None ''10.0.0.1'' 2000))
       = Number 2
   \<and> remaining (fst (getStatus (reset saturated_guest None ''10.0.0.1'') None ''10.0.0.1'' 2000))
       = Number 3"
proof -
  have k: "getKey None ''10.0.0.1'' = ''ip:10.0.0.1''" "getKey None ''10.0.0.9'' = ''ip:10.0.0.9''"
    by (simp_all add: getKey_def)
  have l: "getLimit saturated_guest None = Number 3"
    by (simp add: saturated_guest_def new_RateLimiter_def or_default_def getLimit_def
        userType_of_def limits_at_def)
  have s: "storage saturated_guest = [(''ip:10.0.0.1'', \<lparr>count = 3, windowStart = 1000\<rparr>),
                     (''user:7'', \<lparr>count = 2, windowStart = 500\<rparr>)]"
    by (simp add: saturated_guest_def)
  from reset_idempotent_fresh [of saturated_guest None "''10.0.0.1''" 2000]
    reset_idempotent_fresh [of saturated_guest None "''10.0.0.9''" 2000]
  show ?thesis
    by (simp add: k l s storage_get_def)
qed

section \<open>Cleanup\<close>

text \<open>
  Claim C9. On a store that holds each key once, as a \<open>Map\<close> does, \<open>cleanup\<close> at time
  \<open>now\<close> keeps exactly the entries with \<open>now - windowStart < windowSize\<close>, unchanged
  and in their order, and removes every entry with \<open>now - windowStart \<ge> windowSize\<close>.
  So a key whose window is over is absent afterwards, a key whose window is running
  still has its count and windowStart, and \<open>getDebugInfo\<close> lists the keys that are left.
\<close>

theorem cleanup_removes_expired:
  assumes "distinct_keys (storage rl)"
  shows "storage (cleanup rl now)
           = filter (\<lambda>(key, d). now - windowStart d < windowSize rl) (storage rl)
       \<and> storage_get (storage (cleanup rl now)) key =
           (case storage_get (storage rl) key of
              None \<Rightarrow> None
            | Some d \<Rightarrow> if now - windowStart d \<ge> windowSize rl then None else Some d)
       \<and> map fst (getDebugInfo (cleanup rl now) t) = map fst (storage (cleanup rl now))"
proof -
  have 1: "storage (cleanup rl now)
           = filter (\<lambda>(key, d). now - windowStart d < windowSize rl) (storage rl)"
    by (simp add: storage_cleanup [OF assms] expired_def not_le)
  have 2: "storage_get (storage (cleanup rl now)) key =
           (case storage_get (storage rl) key of
              None \<Rightarrow> None
            | Some d \<Rightarrow> if now - windowStart d \<ge> windowSize rl then None else Some d)"
    by (simp add: 1 storage_get_filter [OF assms] not_le [symmetric] split: option.splits)
  have 3: "map fst (getDebugInfo (cleanup rl now) t) = map fst (storage (cleanup rl now))"
    by (simp add: getDebugInfo_def case_prod_unfold)
  from 1 2 3 show ?thesis by blast
qed

theorem cleanup_removes_expired_witness:
  "distinct_keys (storage expired_guest)
   \<and> storage (cleanup expired_guest 3601000)
       = [(''user:7'', \<lparr>count = 2, windowStart = 3000000\<rparr>)]
   \<and> storage_get (storage (cleanup expired_guest 3601000)) ''ip:10.0.0.1'' = None
   \<and> storage_get (storage (cleanup expired_guest 3601000)) ''user:7''
       = Some \<lparr>count = 2, windowStart = 3000000\<rparr>"
proof -
  have d: "distinct_keys (storage expired_guest)"
    by (simp add: distinct_keys_def expired_guest_def)
  have s: "storage expired_guest = [(''ip:10.0.0.1'', \<lparr>count = 3, windowStart = 1000\<rparr>),
                     (''user:7'', \<lparr>count = 2, windowStart = 3000000\<rparr>)]"
    and w: "windowSize expired_guest = 3600000"
    by (simp_all add: expired_guest_def new_RateLimiter_def or_default_def)
  from cleanup_removes_expired [OF d, of 3601000 "''ip:10.0.0.1''"]
    cleanup_removes_expired [OF d, of 3601000 "''user:7''"] d
  show ?thesis
    by (simp add: s w storage_get_def)
qed

section \<open>Denied calls\<close>

text \<open>
  Claim C10. A call for a key whose stored window is still running and whose count is
  not below the limit (\<open>count \<ge> limit\<close> for a limit that is a number) is denied, and the
  whole state (this key's entry, every other entry, and their order) is what it was
  before the call.
\<close>

theorem checkLimit_denied_frame:
  assumes "storage_get (storage rl) (getKey usr ip) = Some d"
    and "now - windowStart d < windowSize rl"
    and "\<not> js_less (int (count d)) (getLimit rl usr)"
  shows "\<not> allowed (fst (checkLimit rl usr ip now)) \<and> snd (checkLimit rl usr ip now) = rl"
proof -
  from assms(2) have "\<not> expired rl now d" by (simp add: expired_def)
  with assms(1,3) show ?thesis by (simp add: checkLimit_live)
qed

theorem checkLimit_denied_frame_witness:
  "storage_get (storage saturated_guest) (getKey None ''10.0.0.1'')
     = Some \<lparr>count = 3, windowStart = 1000\<rparr>
   \<and> 2000 - windowStart \<lparr>count = 3, windowStart = 1000\<rparr> < windowSize saturated_guest
   \<and> getLimit saturated_guest None = Number 3
   \<and> \<not> js_less (int (count \<lparr>count = 3, windowStart = 1000\<rparr>)) (getLimit saturated_guest None)
   \<and> \<not> allowed (fst (checkLimit saturated_guest None ''10.0.0.1'' 2000))
   \<and> snd (checkLimit saturated_guest None ''10.0.0.1'' 2000) = saturated_guest"
proof -
  have a: "storage_get (storage saturated_guest) (getKey None ''10.0.0.1'')
     = Some \<lparr>count = 3, windowStart = 1000\<rparr>"
    by (simp add: saturated_guest_def new_RateLimiter_def getKey_def storage_get_def)
  have b: "2000 - windowStart \<lparr>count = 3, windowStart = 1000\<rparr> < windowSize saturated_guest"
    by (simp add: saturated_guest_def new_RateLimiter_def or_default_def)
  have l: "getLimit saturated_guest None = Number 3"
    by (simp add: saturated_guest_def new_RateLimiter_def or_default_def getLimit_def
        userType_of_def limits_at_def)
  have c: "\<not> js_less (int (count \<lparr>count = 3, windowStart = 1000\<rparr>)) (getLimit saturated_guest None)"
    by (simp add: l)
  from checkLimit_denied_frame [OF a b c] a b c l show ?thesis by blast
qed

end
